theory Spec2Isabelle
  imports Main "HOL-Library.AList" "HOL-Library.Char_ord" "HOL-Library.List_Lexorder"
    "HOL-Library.Multiset"
begin

section \<open>Python values used by module_manager.py\<close>

text \<open>
  Text is modelled at the level of decoded characters: a \<open>string\<close> is the list of code
  points of a Python \<open>str\<close>, one \<open>char\<close> each, so the model covers the code points below
  256 (a file decoded in an 8-bit encoding). Exceptions are values of \<open>error\<close>; a function
  that can raise returns \<open>error + 'a\<close> with \<open>Inl\<close> for the exception.
\<close>

datatype error =
    KeyError
  | ValueError
  | FileNotFoundError
  | PermissionError
  | IsADirectoryError
  | NotADirectoryError
  | OSError

subsection \<open>str methods\<close>

text \<open>The code points below 256 for which \<open>str.isspace\<close> holds.\<close>

definition whitespace :: "char list" where
  "whitespace =
     [CHR 0x09, CHR 0x0A, CHR 0x0B, CHR 0x0C, CHR 0x0D,
      CHR 0x1C, CHR 0x1D, CHR 0x1E, CHR 0x1F, CHR 0x20, CHR 0x85, CHR 0xA0]"

definition isspace :: "char \<Rightarrow> bool" where
  "isspace c = (c \<in> set whitespace)"

text \<open>\<open>s.strip()\<close>: whitespace removed at both ends.\<close>

definition strip :: "string \<Rightarrow> string" where
  "strip s = rev (dropWhile isspace (rev (dropWhile isspace s)))"

text \<open>
  \<open>s.split()\<close>: the maximal runs of non-whitespace characters, in order. \<open>cur\<close> is the
  token being read.
\<close>

fun split_from :: "string \<Rightarrow> string \<Rightarrow> string list" where
  "split_from cur [] = (if cur = [] then [] else [cur])"
| "split_from cur (c # cs) =
     (if isspace c
      then (if cur = [] then split_from [] cs else cur # split_from [] cs)
      else split_from (cur @ [c]) cs)"

definition str_split :: "string \<Rightarrow> string list" where
  "str_split s = split_from [] s"

text \<open>\<open>s.split(sep)\<close> for a one-character separator: every separator cuts, empty pieces stay.\<close>

fun split_at :: "char \<Rightarrow> string \<Rightarrow> string \<Rightarrow> string list" where
  "split_at sep cur [] = [cur]"
| "split_at sep cur (c # cs) =
     (if c = sep then cur # split_at sep [] cs else split_at sep (cur @ [c]) cs)"

definition split_sep :: "char \<Rightarrow> string \<Rightarrow> string list" where
  "split_sep sep s = split_at sep [] s"

definition startswith :: "string \<Rightarrow> string \<Rightarrow> bool" where
  "startswith s pre = (take (length pre) s = pre)"

definition endswith :: "string \<Rightarrow> string \<Rightarrow> bool" where
  "endswith s suf = (length suf \<le> length s \<and> drop (length s - length suf) s = suf)"

text \<open>\<open>s.lower()\<close> on the code points below 256: A-Z and the accented capitals move by 32.\<close>

definition lower_char :: "char \<Rightarrow> char" where
  "lower_char c =
     (let n = (of_char c :: nat)
      in if (65 \<le> n \<and> n \<le> 90) \<or> (192 \<le> n \<and> n \<le> 222 \<and> n \<noteq> 215)
         then char_of (n + 32) else c)"

definition lower :: "string \<Rightarrow> string" where
  "lower s = map lower_char s"

subsection \<open>dict\<close>

text \<open>
  A \<open>dict\<close> of strings is an association list in insertion order. Assignment keeps the
  position of a key that is present and appends a new one; \<open>del\<close> raises \<open>KeyError\<close> on a
  missing key; \<open>==\<close> compares the sizes and then looks every item of the left dict up in
  the right one, whatever the order.
\<close>

type_synonym dict = "(string \<times> string) list"

definition dict_set :: "dict \<Rightarrow> string \<Rightarrow> string \<Rightarrow> dict" where
  "dict_set d k v = AList.update k v d"

definition dict_get :: "dict \<Rightarrow> string \<Rightarrow> string option" where
  "dict_get d k = map_of d k"

definition dict_contains :: "dict \<Rightarrow> string \<Rightarrow> bool" where
  "dict_contains d k = (map_of d k \<noteq> None)"

definition dict_del :: "dict \<Rightarrow> string \<Rightarrow> error + dict" where
  "dict_del d k = (if dict_contains d k then Inr (AList.delete k d) else Inl KeyError)"

definition dict_eq :: "dict \<Rightarrow> dict \<Rightarrow> bool" where
  "dict_eq a b = (length a = length b \<and> list_all (\<lambda>(k, v). map_of b k = Some v) a)"

section \<open>Constants\<close>

definition MODULE_ARGUMENTS :: "string list" where
  "MODULE_ARGUMENTS = [''MAYAVERSION'', ''PLATFORM'', ''LOCALE'']"

text \<open>
  \<open>MAYA_ARGUMENTS\<close> is filled from the running host (\<open>cmds.about\<close>); the three answers are
  the parameters of the model.
\<close>

record about =
  version :: string
  operatingSystem :: string
  uiLanguage :: string

definition MAYA_ARGUMENTS :: "about \<Rightarrow> dict" where
  "MAYA_ARGUMENTS env =
     [(''MAYAVERSION'', version env),
      (''PLATFORM'', operatingSystem env),
      (''LOCALE'', uiLanguage env)]"

definition MOD_EXTENSIONS :: string where
  "MOD_EXTENSIONS = ''mod''"

section \<open>parse_module_line\<close>

text \<open>
  The inner loop \<open>for argument in MODULE_ARGUMENTS\<close> for one partition: a matching
  argument stores the text after the key and one more character, then removes the first
  element of the list equal to the partition (\<open>list.remove\<close>, \<open>ValueError\<close> when there is
  none). There is no \<open>break\<close>: the remaining arguments are tried too.
\<close>

fun extract_arguments ::
  "string list \<Rightarrow> string \<Rightarrow> string list \<Rightarrow> dict \<Rightarrow> error + (string list \<times> dict)" where
  "extract_arguments [] part partitions data = Inr (partitions, data)"
| "extract_arguments (argument # arguments) part partitions data =
     (if \<not> startswith part argument
      then extract_arguments arguments part partitions data
      else
        (let data' = dict_set data argument (drop (length argument + 1) part)
         in if part \<in> set partitions
            then extract_arguments arguments part (remove1 part partitions) data'
            else Inl ValueError))"

text \<open>
  The outer loop \<open>for partition in reversed(partitions)\<close>. The reverse iterator is not a
  copy: it holds an index into the list that the body shrinks, starts at the last
  index, yields the element at the index while the index is inside the list, and stops
  otherwise. The first argument is the index plus one.
\<close>

fun scan_partitions :: "nat \<Rightarrow> string list \<Rightarrow> dict \<Rightarrow> error + (string list \<times> dict)" where
  "scan_partitions 0 partitions data = Inr (partitions, data)"
| "scan_partitions (Suc i) partitions data =
     (if i < length partitions
      then
        (case extract_arguments MODULE_ARGUMENTS (partitions ! i) partitions data of
           Inl e \<Rightarrow> Inl e
         | Inr (partitions', data') \<Rightarrow> scan_partitions i partitions' data')
      else Inr (partitions, data))"

definition positional_keys :: "string list" where
  "positional_keys = [''ENABLED'', ''NAME'', ''VERSION'', ''PATH'']"

text \<open>\<open>for i, key in enumerate([...]): data[key] = partitions[i]\<close>, on four partitions.\<close>

fun add_positional :: "string list \<Rightarrow> string list \<Rightarrow> dict \<Rightarrow> dict" where
  "add_positional (key # keys) (p # ps) data = add_positional keys ps (dict_set data key p)"
| "add_positional _ _ data = data"

definition parse_module_line :: "string \<Rightarrow> error + dict option" where
  "parse_module_line line =
     (if length line < 1 \<or> hd line \<notin> {CHR ''+'', CHR ''-''} then Inr None
      else
        (let partitions = str_split line
         in case scan_partitions (length partitions) partitions [] of
              Inl e \<Rightarrow> Inl e
            | Inr (partitions', data) \<Rightarrow>
                if length partitions' \<noteq> 4 then Inr None
                else Inr (Some (add_positional positional_keys partitions' data))))"

section \<open>Files\<close>

text \<open>
  What the operating system answers for a path: nothing there, a directory with its
  entries, or a file. A file has its text, its permissions, and \<open>room\<close>: the number of
  characters the device still accepts when the file is rewritten (\<open>None\<close>: no limit). A
  write beyond it fails with \<open>OSError\<close> after the accepted part has reached the file.
\<close>

record regular_file =
  file_text :: string
  readable :: bool
  writable :: bool
  room :: "nat option"

datatype node = File regular_file | Dir "string list"

type_synonym filesystem = "string \<Rightarrow> node option"

text \<open>\<open>open(file_path, "r")\<close> followed by reading the whole text.\<close>

definition open_read :: "filesystem \<Rightarrow> string \<Rightarrow> error + string" where
  "open_read fs file_path =
     (case fs file_path of
        None \<Rightarrow> Inl FileNotFoundError
      | Some (Dir entries) \<Rightarrow> Inl IsADirectoryError
      | Some (File f) \<Rightarrow> if readable f then Inr (file_text f) else Inl PermissionError)"

text \<open>
  \<open>open(file_path, "w")\<close>: the file is emptied when it is opened, before anything is
  written; a missing file is created.
\<close>

definition open_write :: "filesystem \<Rightarrow> string \<Rightarrow> error + filesystem" where
  "open_write fs file_path =
     (case fs file_path of
        None \<Rightarrow>
          Inr (fs(file_path \<mapsto>
                 File \<lparr>file_text = [], readable = True, writable = True, room = None\<rparr>))
      | Some (Dir entries) \<Rightarrow> Inl IsADirectoryError
      | Some (File f) \<Rightarrow>
          if writable f then Inr (fs(file_path \<mapsto> File (f\<lparr>file_text := []\<rparr>)))
          else Inl PermissionError)"

text \<open>\<open>f.writelines(content)\<close> on the file just opened, closed on leaving the \<open>with\<close> block.\<close>

definition writelines :: "filesystem \<Rightarrow> string \<Rightarrow> string list \<Rightarrow> filesystem \<times> (error + unit)" where
  "writelines fs file_path lines =
     (case fs file_path of
        Some (File f) \<Rightarrow>
          (let text = concat lines
           in case room f of
                None \<Rightarrow> (fs(file_path \<mapsto> File (f\<lparr>file_text := text\<rparr>)), Inr ())
              | Some n \<Rightarrow>
                  if length text \<le> n
                  then (fs(file_path \<mapsto> File (f\<lparr>file_text := text\<rparr>)), Inr ())
                  else (fs(file_path \<mapsto> File (f\<lparr>file_text := take n text\<rparr>)), Inl OSError))
      | _ \<Rightarrow> (fs, Inl OSError))"

text \<open>
  Text mode reads with universal newlines: \<open>\r\n\<close> and a lone \<open>\r\<close> arrive as \<open>\n\<close>.
  \<open>readlines\<close> cuts after every \<open>\n\<close> and keeps it; a last line without one is kept too.
\<close>

fun universal_newlines :: "string \<Rightarrow> string" where
  "universal_newlines [] = []"
| "universal_newlines (c # cs) =
     (if c = CHR 0x0D
      then (case cs of
              [] \<Rightarrow> [CHR 0x0A]
            | d # ds \<Rightarrow>
                if d = CHR 0x0A then CHR 0x0A # universal_newlines ds
                else CHR 0x0A # universal_newlines cs)
      else c # universal_newlines cs)"

fun readlines_from :: "string \<Rightarrow> string \<Rightarrow> string list" where
  "readlines_from cur [] = (if cur = [] then [] else [cur])"
| "readlines_from cur (c # cs) =
     (if c = CHR 0x0A then (cur @ [c]) # readlines_from [] cs
      else readlines_from (cur @ [c]) cs)"

definition readlines :: "string \<Rightarrow> string list" where
  "readlines text = readlines_from [] (universal_newlines text)"

section \<open>read_module_file and filter_module_file\<close>

definition read_module_file :: "filesystem \<Rightarrow> string \<Rightarrow> error + string list" where
  "read_module_file fs file_path =
     (case open_read fs file_path of
        Inl e \<Rightarrow> Inl e
      | Inr text \<Rightarrow> Inr (map strip (readlines text)))"

text \<open>\<open>if not data: continue\<close>: \<open>None\<close> and the empty dict are both skipped.\<close>

fun filter_lines :: "string list \<Rightarrow> error + dict list" where
  "filter_lines [] = Inr []"
| "filter_lines (line # lines) =
     (case parse_module_line line of
        Inl e \<Rightarrow> Inl e
      | Inr None \<Rightarrow> filter_lines lines
      | Inr (Some data) \<Rightarrow>
          if data = [] then filter_lines lines
          else (case filter_lines lines of Inl e \<Rightarrow> Inl e | Inr rest \<Rightarrow> Inr (data # rest)))"

definition filter_module_file :: "filesystem \<Rightarrow> string \<Rightarrow> error + dict list" where
  "filter_module_file fs file_path =
     (case read_module_file fs file_path of
        Inl e \<Rightarrow> Inl e
      | Inr lines \<Rightarrow> filter_lines lines)"

section \<open>update_module_file\<close>

text \<open>
  The loop over the lines: \<open>content\<close> is the list being appended to. A line is rewritten
  when it parses to a non-empty dict that equals \<open>data\<close> once its \<open>ENABLED\<close> is deleted.
\<close>

fun update_lines :: "string \<Rightarrow> dict \<Rightarrow> string list \<Rightarrow> string list \<Rightarrow> error + string list" where
  "update_lines enabled data [] content = Inr content"
| "update_lines enabled data (line # lines) content =
     (case parse_module_line line of
        Inl e \<Rightarrow> Inl e
      | Inr None \<Rightarrow> update_lines enabled data lines (content @ [line])
      | Inr (Some line_data) \<Rightarrow>
          if line_data = [] then update_lines enabled data lines (content @ [line])
          else
            (case dict_del line_data ''ENABLED'' of
               Inl e \<Rightarrow> Inl e
             | Inr line_data' \<Rightarrow>
                 if dict_eq data line_data'
                 then update_lines enabled data lines (content @ [enabled @ drop 1 line])
                 else update_lines enabled data lines (content @ [line])))"

text \<open>
  The result is the file system after the call, the caller's dict after the call (it is
  mutated in place by \<open>del data["ENABLED"]\<close>), and either the exception that left the
  function or its normal return.
\<close>

definition update_module_file ::
  "filesystem \<Rightarrow> string \<Rightarrow> bool \<Rightarrow> dict \<Rightarrow> filesystem \<times> dict \<times> (error + unit)" where
  "update_module_file fs file_path state data =
     (let enabled = (if state then ''+'' else ''-'')
      in case dict_del data ''ENABLED'' of
           Inl e \<Rightarrow> (fs, data, Inl e)
         | Inr data' \<Rightarrow>
             (case read_module_file fs file_path of
                Inl e \<Rightarrow> (fs, data', Inl e)
              | Inr lines \<Rightarrow>
                  (case update_lines enabled data' lines [] of
                     Inl e \<Rightarrow> (fs, data', Inl e)
                   | Inr content \<Rightarrow>
                       (let content' = map (\<lambda>c. c @ [CHR 0x0A]) content
                        in case open_write fs file_path of
                             Inl e \<Rightarrow> (fs, data', Inl e)
                           | Inr fs' \<Rightarrow>
                               (case writelines fs' file_path content' of
                                  (fs'', r) \<Rightarrow> (fs'', data', r))))))"

section \<open>MayaModuleDetail\<close>

text \<open>\<open>enabled_state = data.get("ENABLED") == "+"\<close> in the constructor.\<close>

definition enabled_state :: "dict \<Rightarrow> bool" where
  "enabled_state data = (dict_get data ''ENABLED'' = Some ''+'')"

text \<open>
  \<open>_emit_enabled_changed\<close> hands a copy of the widget's dict to the slot, which calls
  \<open>update_module_file\<close>; the result adds the widget's own dict after the call.
\<close>

definition emit_enabled_changed ::
  "filesystem \<Rightarrow> string \<Rightarrow> dict \<Rightarrow> bool \<Rightarrow> filesystem \<times> dict \<times> (error + unit)" where
  "emit_enabled_changed fs file_path self_data state =
     (let data = self_data
      in case update_module_file fs file_path state data of
           (fs', data', r) \<Rightarrow> (fs', self_data, r))"

fun is_compatible_items :: "(string \<times> string) list \<Rightarrow> dict \<Rightarrow> bool" where
  "is_compatible_items [] data = True"
| "is_compatible_items ((key, value) # items) data =
     (if \<not> dict_contains data key then is_compatible_items items data
      else if dict_get data key \<noteq> Some value then False
      else is_compatible_items items data)"

definition is_compatible :: "about \<Rightarrow> dict \<Rightarrow> bool" where
  "is_compatible env data = is_compatible_items (MAYA_ARGUMENTS env) data"

section \<open>os.path and discovery\<close>

text \<open>The POSIX versions of \<open>os.path.join\<close>, \<open>basename\<close> and \<open>normpath\<close>; \<open>os.pathsep\<close> is \<open>:\<close>.\<close>

definition path_join :: "string \<Rightarrow> string \<Rightarrow> string" where
  "path_join a b =
     (if startswith b ''/'' then b
      else if a = [] \<or> endswith a ''/'' then a @ b
      else a @ ''/'' @ b)"

definition basename :: "string \<Rightarrow> string" where
  "basename p = rev (takeWhile (\<lambda>c. c \<noteq> CHR ''/'') (rev p))"

fun norm_comps :: "nat \<Rightarrow> string list \<Rightarrow> string list \<Rightarrow> string list" where
  "norm_comps initial_slashes [] new_comps = new_comps"
| "norm_comps initial_slashes (component # comps) new_comps =
     (if component = [] \<or> component = ''.'' then norm_comps initial_slashes comps new_comps
      else if component \<noteq> ''..'' \<or> (initial_slashes = 0 \<and> new_comps = [])
              \<or> (new_comps \<noteq> [] \<and> last new_comps = ''..'')
      then norm_comps initial_slashes comps (new_comps @ [component])
      else if new_comps \<noteq> [] then norm_comps initial_slashes comps (butlast new_comps)
      else norm_comps initial_slashes comps new_comps)"

fun str_join :: "string \<Rightarrow> string list \<Rightarrow> string" where
  "str_join sep [] = []"
| "str_join sep [x] = x"
| "str_join sep (x # y # ys) = x @ sep @ str_join sep (y # ys)"

definition normpath :: "string \<Rightarrow> string" where
  "normpath path =
     (if path = [] then ''.''
      else
        (let initial_slashes =
               (if startswith path ''/''
                then (if startswith path ''//'' \<and> \<not> startswith path ''///'' then 2 else 1)
                else (0::nat));
             comps = norm_comps initial_slashes (split_sep CHR ''/'' path) [];
             path' = replicate initial_slashes CHR ''/'' @ str_join ''/'' comps
         in if path' = [] then ''.'' else path'))"

definition path_exists :: "filesystem \<Rightarrow> string \<Rightarrow> bool" where
  "path_exists fs path = (fs path \<noteq> None)"

definition listdir :: "filesystem \<Rightarrow> string \<Rightarrow> error + string list" where
  "listdir fs path =
     (case fs path of
        None \<Rightarrow> Inl FileNotFoundError
      | Some (File f) \<Rightarrow> Inl NotADirectoryError
      | Some (Dir entries) \<Rightarrow> Inr entries)"

text \<open>\<open>os.environ["MAYA_MODULE_PATH"].split(os.pathsep)\<close>.\<close>

definition get_module_paths :: "(string \<rightharpoonup> string) \<Rightarrow> error + string list" where
  "get_module_paths environ =
     (case environ ''MAYA_MODULE_PATH'' of
        None \<Rightarrow> Inl KeyError
      | Some v \<Rightarrow> Inr (split_sep CHR '':'' v))"

text \<open>The condition of the list comprehension, on one directory entry.\<close>

definition is_module_file :: "string \<Rightarrow> bool" where
  "is_module_file f = (endswith (lower f) MOD_EXTENSIONS \<and> \<not> startswith f ''moduleManager'')"

fun collect_modules :: "filesystem \<Rightarrow> string list \<Rightarrow> string list \<Rightarrow> error + string list" where
  "collect_modules fs [] modules = Inr modules"
| "collect_modules fs (path # paths) modules =
     (if \<not> path_exists fs path then collect_modules fs paths modules
      else
        (case listdir fs path of
           Inl e \<Rightarrow> Inl e
         | Inr entries \<Rightarrow>
             collect_modules fs paths
               (modules @ map (\<lambda>f. normpath (path_join path f)) (filter is_module_file entries))))"

definition get_module_file_paths :: "(string \<rightharpoonup> string) \<Rightarrow> filesystem \<Rightarrow> error + string list" where
  "get_module_file_paths environ fs =
     (case get_module_paths environ of
        Inl e \<Rightarrow> Inl e
      | Inr paths \<Rightarrow>
          (case collect_modules fs paths [] of
             Inl e \<Rightarrow> Inl e
           | Inr modules \<Rightarrow> Inr (sort_key basename modules)))"

section \<open>Notions used to state the properties\<close>

text \<open>
  The key of \<open>MODULE_ARGUMENTS\<close> a token starts with, if any; the tokens of a line that
  start with none (the positional tokens); the fields update compares (every key of a
  record but \<open>ENABLED\<close>); and the shape of a dict that \<open>parse_module_line\<close> returns.
\<close>

definition argument_key :: "string \<Rightarrow> string option" where
  "argument_key part = find (startswith part) MODULE_ARGUMENTS"

definition positional :: "string \<Rightarrow> string list" where
  "positional line = filter (\<lambda>part. argument_key part = None) (str_split line)"

definition identity :: "dict \<Rightarrow> string option list" where
  "identity d =
     map (dict_get d)
       [''NAME'', ''VERSION'', ''PATH'', ''MAYAVERSION'', ''PLATFORM'', ''LOCALE'']"

definition is_record :: "dict \<Rightarrow> bool" where
  "is_record d \<longleftrightarrow>
     distinct (map fst d)
     \<and> fst ` set d \<subseteq> set (positional_keys @ MODULE_ARGUMENTS)
     \<and> set positional_keys \<subseteq> fst ` set d"

text \<open>What the scan over the tokens \<open>pre\<close> may have done to the dict \<open>d\<close>.\<close>

definition attrs_ok :: "string list \<Rightarrow> dict \<Rightarrow> dict \<Rightarrow> bool" where
  "attrs_ok pre d d' \<longleftrightarrow>
     (distinct (map fst d) \<longrightarrow> distinct (map fst d'))
     \<and> fst ` set d' = fst ` set d \<union> {a. \<exists>p \<in> set pre. argument_key p = Some a}
     \<and> (\<forall>a v. map_of d' a = Some v \<longrightarrow>
           map_of d a = Some v
           \<or> (\<exists>p \<in> set pre. argument_key p = Some a \<and> v = drop (length a + 1) p))"

text \<open>
  The test of the loop body of \<open>update_module_file\<close> on one line, and the lines the loop
  collects for a file text.
\<close>

definition matches :: "dict \<Rightarrow> string \<Rightarrow> bool" where
  "matches data line =
     (case parse_module_line line of
        Inr (Some line_data) \<Rightarrow>
          line_data \<noteq> []
          \<and> (case dict_del line_data ''ENABLED'' of
                Inr line_data' \<Rightarrow> dict_eq data line_data'
              | Inl e \<Rightarrow> False)
      | _ \<Rightarrow> False)"

definition rewritten :: "bool \<Rightarrow> dict \<Rightarrow> string \<Rightarrow> string list" where
  "rewritten state data text =
     map (\<lambda>line. if matches (AList.delete ''ENABLED'' data) line
                  then (if state then ''+'' else ''-'') @ drop 1 line else line)
       (map strip (readlines text))"

text \<open>
  Newline normalization in the spec's words: every line ends in exactly one newline,
  whatever line ending the source used and also when the last line had none.
\<close>

definition newline_normalized :: "string \<Rightarrow> string" where
  "newline_normalized text =
     concat (map (\<lambda>l. if l \<noteq> [] \<and> last l = CHR 0x0A then l else l @ [CHR 0x0A])
               (readlines text))"

text \<open>
  For discovery: whether a path is a regular file, the entries of a directory (none when
  the path is not a directory), and the paths that the search directories hold, in the
  order of the search list and of each listing.
\<close>

definition isfile :: "filesystem \<Rightarrow> string \<Rightarrow> bool" where
  "isfile fs p = (case fs p of Some (File f) \<Rightarrow> True | _ \<Rightarrow> False)"

definition dir_entries :: "filesystem \<Rightarrow> string \<Rightarrow> string list" where
  "dir_entries fs d = (case fs d of Some (Dir entries) \<Rightarrow> entries | _ \<Rightarrow> [])"

definition discovered :: "filesystem \<Rightarrow> string list \<Rightarrow> string list" where
  "discovered fs paths =
     concat (map (\<lambda>d. map (\<lambda>f. normpath (path_join d f))
                         (filter (\<lambda>f. endswith (lower f) ''mod'' \<and> \<not> startswith f ''moduleManager'')
                            (dir_entries fs d)))
               paths)"

section \<open>Example inputs\<close>

text \<open>
  The descriptor line of the end-to-end example, the dict it parses to, a file system
  holding a descriptor file with that line and a module directory, and a host.
\<close>

definition example_record :: dict where
  "example_record =
     [(''MAYAVERSION'', ''2024''), (''ENABLED'', ''-''), (''NAME'', ''Tool''),
      (''VERSION'', ''1.0''), (''PATH'', ''../content'')]"

definition example_file :: regular_file where
  "example_file =
     \<lparr>file_text = ''  # tools\<newline>- Tool 1.0 ../content MAYAVERSION=2024\<newline>+OnlyTwoTokens'',
      readable = True, writable = True, room = None\<rparr>"

definition example_fs :: filesystem where
  "example_fs =
     (\<lambda>p. if p = ''/mods/tool.mod'' then Some (File example_file)
          else if p = ''/B''
          then Some (Dir [''zzz.mod'', ''aaa.MOD'', ''moduleManagerControl.mod'', ''notes.txt''])
          else if p = ''/C'' then Some (Dir [''bbb.mod''])
          else None)"

text \<open>A file system with one descriptor file of the given text and room.\<close>

definition fs_with :: "string \<Rightarrow> nat option \<Rightarrow> filesystem" where
  "fs_with text n =
     (\<lambda>p. if p = ''/mods/tool.mod''
          then Some (File \<lparr>file_text = text, readable = True, writable = True, room = n\<rparr>)
          else None)"



definition example_env :: "string \<Rightarrow> about" where
  "example_env v = \<lparr>version = v, operatingSystem = ''win64'', uiLanguage = ''en_US''\<rparr>"

section \<open>The caller's dict\<close>

lemma not_contains_delete: "\<not> dict_contains (AList.delete k d) k"
  by (simp add: dict_contains_def AList.delete_conv')

lemma caller_dict_cases:
  "fst (snd (update_module_file fs file_path state data)) =
     (if dict_contains data ''ENABLED'' then AList.delete ''ENABLED'' data else data)"
  by (auto simp: update_module_file_def dict_del_def Let_def split: sum.splits prod.splits)

lemma example_update_result:
  "snd (update_module_file example_fs ''/mods/tool.mod'' True example_record)
     = ([(''MAYAVERSION'', ''2024''), (''NAME'', ''Tool''), (''VERSION'', ''1.0''),
         (''PATH'', ''../content'')], Inr ())"
  by code_simp

text \<open>
  C10. \<open>update_module_file\<close> deletes \<open>ENABLED\<close> from the dict it is given: whatever the
  call does afterwards, the caller's dict has no \<open>ENABLED\<close> key once the call is over and
  keeps every other key; when the call returns normally the dict is the given one with
  \<open>ENABLED\<close> deleted. \<open>_emit_enabled_changed\<close> passes a copy, so the widget's own dict is
  the same after the call.
\<close>

theorem update_module_file_mutates_data:
  "(case update_module_file fs file_path state data of
      (fs', data', r) \<Rightarrow>
        \<not> dict_contains data' ''ENABLED''
        \<and> (\<forall>k. k \<noteq> ''ENABLED'' \<longrightarrow> dict_get data' k = dict_get data k)
        \<and> (r = Inr () \<longrightarrow>
             dict_contains data ''ENABLED'' \<and> data' = AList.delete ''ENABLED'' data))
   \<and> fst (snd (emit_enabled_changed fs file_path data state)) = data"
proof -
  obtain fs' data' r where u: "update_module_file fs file_path state data = (fs', data', r)"
    by (cases "update_module_file fs file_path state data") auto
  have d: "data' =
      (if dict_contains data ''ENABLED'' then AList.delete ''ENABLED'' data else data)"
    using caller_dict_cases [of fs file_path state data] u by simp
  have 1: "\<not> dict_contains data' ''ENABLED''"
    using d not_contains_delete by (simp split: if_splits)
  have 2: "\<forall>k. k \<noteq> ''ENABLED'' \<longrightarrow> dict_get data' k = dict_get data k"
    using d by (simp add: dict_get_def)
  have 3: "r = Inr () \<longrightarrow>
      dict_contains data ''ENABLED'' \<and> data' = AList.delete ''ENABLED'' data"
    using u d
    by (auto simp: update_module_file_def dict_del_def Let_def
             split: sum.splits prod.splits if_splits)
  have 4: "fst (snd (emit_enabled_changed fs file_path data state)) = data"
    by (simp add: emit_enabled_changed_def split: prod.splits)
  show ?thesis using u 1 2 3 4 by simp
qed

theorem update_module_file_mutates_data_witness:
  "dict_contains example_record ''ENABLED''
   \<and> snd (update_module_file example_fs ''/mods/tool.mod'' True example_record)
       = (AList.delete ''ENABLED'' example_record, Inr ())
   \<and> \<not> dict_contains
         (fst (snd (update_module_file example_fs ''/mods/tool.mod'' True example_record)))
         ''ENABLED''
   \<and> dict_get
         (fst (snd (update_module_file example_fs ''/mods/tool.mod'' True example_record)))
         ''NAME'' = Some ''Tool''"
  using update_module_file_mutates_data
          [where fs = example_fs and file_path = "''/mods/tool.mod''" and state = True
             and data = example_record]
        example_update_result
  by (auto simp: example_record_def dict_contains_def dict_get_def split: prod.splits)

section \<open>Compatibility\<close>

lemma is_compatible_items_iff:
  "distinct (map fst items) \<Longrightarrow>
   is_compatible_items items data \<longleftrightarrow>
     (\<forall>(key, value) \<in> set items. \<forall>v. dict_get data key = Some v \<longrightarrow> v = value)"
  by (induction items data rule: is_compatible_items.induct)
     (auto simp: dict_contains_def dict_get_def)

text \<open>
  C7. \<open>is_compatible\<close> is true exactly when every key of \<open>MODULE_ARGUMENTS\<close> that the
  record has carries the value the host reports for it; keys the record does not have
  do not count, so a record with none of the three keys is compatible with every host.
\<close>

theorem is_compatible_conjunctive:
  "(is_compatible env data \<longleftrightarrow>
      (\<forall>key \<in> set MODULE_ARGUMENTS. \<forall>v. dict_get data key = Some v \<longrightarrow>
          dict_get (MAYA_ARGUMENTS env) key = Some v))
   \<and> ((\<forall>key \<in> set MODULE_ARGUMENTS. \<not> dict_contains data key) \<longrightarrow> is_compatible env data)"
  unfolding is_compatible_def
  by (subst is_compatible_items_iff)
     (auto simp: MAYA_ARGUMENTS_def MODULE_ARGUMENTS_def dict_get_def dict_contains_def)

theorem is_compatible_conjunctive_witness:
  "is_compatible (example_env ''2024'') example_record
   \<and> \<not> is_compatible (example_env ''2025'') example_record
   \<and> is_compatible (example_env ''2025'') (AList.delete ''MAYAVERSION'' example_record)"
  using is_compatible_conjunctive [of "example_env ''2024''" example_record]
        is_compatible_conjunctive [of "example_env ''2025''" example_record]
        is_compatible_conjunctive
          [of "example_env ''2025''" "AList.delete ''MAYAVERSION'' example_record"]
  by (simp add: example_env_def example_record_def MODULE_ARGUMENTS_def MAYA_ARGUMENTS_def
        dict_get_def dict_contains_def)

section \<open>What parse_module_line computes\<close>

lemma startswith_Nil [simp]: "startswith s []"
  by (simp add: startswith_def)

lemma startswith_Cons:
  "startswith s (c # cs) \<longleftrightarrow> (\<exists>t. s = c # t \<and> startswith t cs)"
  by (cases s) (auto simp: startswith_def)

lemma startswith_hd: "startswith s (c # cs) \<Longrightarrow> s \<noteq> [] \<and> hd s = c"
  by (auto simp: startswith_Cons)
lemma extract_arguments_eq:
  "extract_arguments MODULE_ARGUMENTS part partitions data =
     (case argument_key part of
        None \<Rightarrow> Inr (partitions, data)
      | Some a \<Rightarrow>
          if part \<in> set partitions
          then Inr (remove1 part partitions, dict_set data a (drop (length a + 1) part))
          else Inl ValueError)"
proof -
  consider "startswith part ''MAYAVERSION''"
    | "\<not> startswith part ''MAYAVERSION''" "startswith part ''PLATFORM''"
    | "\<not> startswith part ''MAYAVERSION''" "\<not> startswith part ''PLATFORM''" "startswith part ''LOCALE''"
    | "\<not> startswith part ''MAYAVERSION''" "\<not> startswith part ''PLATFORM''" "\<not> startswith part ''LOCALE''"
    by blast
  then show ?thesis
  proof cases
    case 1
    then have "hd part = CHR ''M''" using startswith_hd by blast
    then have "\<not> startswith part ''PLATFORM''" "\<not> startswith part ''LOCALE''"
      using startswith_hd by fastforce+
    then show ?thesis using 1 by (simp add: MODULE_ARGUMENTS_def argument_key_def Let_def)
  next
    case 2
    then have "hd part = CHR ''P''" using startswith_hd by blast
    then have "\<not> startswith part ''LOCALE''"
      using startswith_hd by fastforce
    then show ?thesis using 2 by (simp add: MODULE_ARGUMENTS_def argument_key_def Let_def)
  next
    case 3
    then show ?thesis by (simp add: MODULE_ARGUMENTS_def argument_key_def Let_def)
  next
    case 4
    then show ?thesis by (simp add: MODULE_ARGUMENTS_def argument_key_def Let_def)
  qed
qed

lemma argument_key_Some:
  "argument_key part = Some a \<Longrightarrow> a \<in> set MODULE_ARGUMENTS \<and> startswith part a"
  unfolding argument_key_def by (auto simp: find_Some_iff)

lemma filter_remove1_out: "\<not> P x \<Longrightarrow> filter P (remove1 x xs) = filter P xs"
  by (induction xs) auto

lemma set_remove1_insert: "x \<in> set xs \<Longrightarrow> insert x (set (remove1 x xs)) = set xs"
  by (induction xs) auto

lemma length_remove1_snoc: "length (remove1 x (xs @ [x])) = length xs"
  by (simp add: length_remove1)

lemma attrs_ok_refl: "attrs_ok [] d d"
  by (simp add: attrs_ok_def)

lemma scan_partitions_eq:
  "length pre = n \<Longrightarrow>
   \<exists>d'. scan_partitions n (pre @ suf) d
          = Inr (filter (\<lambda>p. argument_key p = None) pre @ suf, d')
        \<and> attrs_ok pre d d'"
proof (induction n arbitrary: pre suf d)
  case 0
  then show ?case by (simp add: attrs_ok_refl)
next
  case (Suc n)
  then obtain pre0 p where pre: "pre = pre0 @ [p]" and len: "length pre0 = n"
    by (cases pre rule: rev_cases) auto
  have nth: "(pre @ suf) ! n = p" using pre len by (simp add: nth_append)
  show ?case
  proof (cases "argument_key p")
    case None
    from Suc.IH [OF len, of "p # suf" d] obtain d' where
      s: "scan_partitions n (pre0 @ p # suf) d
            = Inr (filter (\<lambda>p. argument_key p = None) pre0 @ p # suf, d')"
      and a: "attrs_ok pre0 d d'" by blast
    have "scan_partitions (Suc n) (pre @ suf) d
            = Inr (filter (\<lambda>p. argument_key p = None) pre @ suf, d')"
      using s None nth pre len by (simp add: extract_arguments_eq)
    moreover have "attrs_ok pre d d'"
      using a None pre unfolding attrs_ok_def by auto
    ultimately show ?thesis by blast
  next
    case (Some a)
    let ?pre' = "remove1 p pre"
    let ?d1 = "dict_set d a (drop (length a + 1) p)"
    have len': "length ?pre' = n" using pre len by (simp add: length_remove1)
    have rem: "remove1 p (pre @ suf) = ?pre' @ suf" using pre by (simp add: remove1_append)
    from Suc.IH [OF len', of suf ?d1] obtain d' where
      s: "scan_partitions n (?pre' @ suf) ?d1
            = Inr (filter (\<lambda>p. argument_key p = None) ?pre' @ suf, d')"
      and a: "attrs_ok ?pre' ?d1 d'" by blast
    have f: "filter (\<lambda>p. argument_key p = None) ?pre' = filter (\<lambda>p. argument_key p = None) pre"
      using Some by (simp add: filter_remove1_out)
    have "scan_partitions (Suc n) (pre @ suf) d
            = Inr (filter (\<lambda>p. argument_key p = None) pre @ suf, d')"
      using s Some nth pre len rem f by (simp add: extract_arguments_eq)
    moreover have "attrs_ok pre d d'"
    proof -
      have pin: "p \<in> set pre" using pre by simp
      have sub: "set ?pre' \<subseteq> set pre" by (rule set_remove1_subset)
      have ins: "insert p (set ?pre') = set pre" using pin by (rule set_remove1_insert)
      have k: "fst ` set ?d1 = insert a (fst ` set d)"
        by (simp add: dict_set_def AList.dom_update)
      have dd: "distinct (map fst d) \<longrightarrow> distinct (map fst ?d1)"
        by (simp add: dict_set_def AList.distinct_update)
      have m: "map_of ?d1 = (map_of d)(a \<mapsto> drop (length a + 1) p)"
        by (simp add: dict_set_def AList.update_conv')
      have 1: "distinct (map fst d) \<longrightarrow> distinct (map fst d')"
        using a dd unfolding attrs_ok_def by blast
      have 2: "fst ` set d' = fst ` set d \<union> {a. \<exists>p \<in> set pre. argument_key p = Some a}"
      proof -
        have "fst ` set d' = insert a (fst ` set d) \<union> {a. \<exists>q \<in> set ?pre'. argument_key q = Some a}"
          using a k unfolding attrs_ok_def by simp
        also have "\<dots> = fst ` set d \<union> {a. \<exists>q \<in> set pre. argument_key q = Some a}"
          by (subst ins [symmetric]) (use Some in auto)
        finally show ?thesis .
      qed
      have 3: "\<forall>b v. map_of d' b = Some v \<longrightarrow>
           map_of d b = Some v
           \<or> (\<exists>q \<in> set pre. argument_key q = Some b \<and> v = drop (length b + 1) q)"
      proof (intro allI impI)
        fix b v assume "map_of d' b = Some v"
        then consider "map_of ?d1 b = Some v"
          | "\<exists>q \<in> set ?pre'. argument_key q = Some b \<and> v = drop (length b + 1) q"
          using a unfolding attrs_ok_def by blast
        then show "map_of d b = Some v
           \<or> (\<exists>q \<in> set pre. argument_key q = Some b \<and> v = drop (length b + 1) q)"
        proof cases
          case 1
          then show ?thesis using m Some pin by (auto split: if_splits)
        next
          case 2
          then show ?thesis using sub by blast
        qed
      qed
      show ?thesis unfolding attrs_ok_def using 1 2 3 by blast
    qed
    ultimately show ?thesis by blast
  qed
qed


lemma split_from_hd:
  "cur \<noteq> [] \<Longrightarrow>
   split_from cur s \<noteq> [] \<and> hd (split_from cur s) = cur @ takeWhile (\<lambda>c. \<not> isspace c) s"
  by (induction s arbitrary: cur) auto

lemma str_split_hd:
  "\<not> isspace c \<Longrightarrow>
   str_split (c # cs) \<noteq> [] \<and> hd (str_split (c # cs)) = c # takeWhile (\<lambda>c. \<not> isspace c) cs"
  using split_from_hd [of "[c]" cs] by (simp add: str_split_def)

lemma marker_not_space: "c \<in> {CHR ''+'', CHR ''-''} \<Longrightarrow> \<not> isspace c"
  by (auto simp: isspace_def whitespace_def)

lemma marker_not_argument: "c \<in> {CHR ''+'', CHR ''-''} \<Longrightarrow> argument_key (c # t) = None"
  by (auto simp: argument_key_def MODULE_ARGUMENTS_def startswith_Cons)

lemma positional_hd:
  assumes "c \<in> {CHR ''+'', CHR ''-''}"
  shows "positional (c # cs) \<noteq> []
         \<and> hd (positional (c # cs)) = c # takeWhile (\<lambda>c. \<not> isspace c) cs"
proof -
  obtain tok rest where sp: "str_split (c # cs) = tok # rest"
    using str_split_hd [OF marker_not_space [OF assms], of cs] by (cases "str_split (c # cs)") auto
  have tok: "tok = c # takeWhile (\<lambda>c. \<not> isspace c) cs"
    using str_split_hd [OF marker_not_space [OF assms], of cs] sp by simp
  have "argument_key tok = None" using tok marker_not_argument [OF assms] by simp
  then show ?thesis using sp tok by (simp add: positional_def)
qed

lemma parse_module_line_eq:
  "\<exists>d. attrs_ok (str_split line) [] d
       \<and> parse_module_line line =
           (if line = [] \<or> hd line \<notin> {CHR ''+'', CHR ''-''} \<or> length (positional line) \<noteq> 4
            then Inr None
            else Inr (Some (add_positional positional_keys (positional line) d)))"
proof -
  obtain d where s: "scan_partitions (length (str_split line)) (str_split line) [] =
      Inr (positional line, d)" and a: "attrs_ok (str_split line) [] d"
    using scan_partitions_eq [of "str_split line" "length (str_split line)" "[]" "[]"]
    by (auto simp: positional_def)
  have "parse_module_line line =
           (if line = [] \<or> hd line \<notin> {CHR ''+'', CHR ''-''} \<or> length (positional line) \<noteq> 4
            then Inr None
            else Inr (Some (add_positional positional_keys (positional line) d)))"
    using s by (auto simp: parse_module_line_def Let_def)
  then show ?thesis using a by blast
qed

lemma parse_module_line_total: "\<exists>r. parse_module_line line = Inr r"
  using parse_module_line_eq [of line] by (auto split: if_splits)

lemma length_4: "length xs = 4 \<Longrightarrow> \<exists>a b c d. xs = [a, b, c, d]"
  by (auto simp: numeral_eq_Suc length_Suc_conv)

lemma attrs_keys: "attrs_ok toks [] d \<Longrightarrow> fst ` set d \<subseteq> set MODULE_ARGUMENTS"
  unfolding attrs_ok_def using argument_key_Some by auto

lemma add_positional_4:
  "add_positional positional_keys [p0, p1, p2, p3] d =
     dict_set (dict_set (dict_set (dict_set d ''ENABLED'' p0) ''NAME'' p1) ''VERSION'' p2) ''PATH'' p3"
  by (simp add: positional_keys_def)

lemma record_fields:
  fixes p0 p1 p2 p3 :: string and d :: dict
  assumes "attrs_ok toks [] d"
  defines "r \<equiv> add_positional positional_keys [p0, p1, p2, p3] d"
  shows "is_record r"
    and "dict_get r ''ENABLED'' = Some p0"
    and "dict_get r ''NAME'' = Some p1"
    and "dict_get r ''VERSION'' = Some p2"
    and "dict_get r ''PATH'' = Some p3"
    and "a \<in> set MODULE_ARGUMENTS \<Longrightarrow> dict_get r a = dict_get d a"
proof -
  have m: "map_of r = (map_of d)(''ENABLED'' \<mapsto> p0, ''NAME'' \<mapsto> p1, ''VERSION'' \<mapsto> p2, ''PATH'' \<mapsto> p3)"
    unfolding r_def add_positional_4 by (simp add: dict_set_def AList.update_conv')
  have k: "fst ` set r = fst ` set d \<union> set positional_keys"
    unfolding r_def add_positional_4
    by (auto simp: dict_set_def AList.dom_update positional_keys_def)
  have dd: "distinct (map fst d)" using assms(1) unfolding attrs_ok_def by simp
  have dr: "distinct (map fst r)"
    unfolding r_def add_positional_4 using dd by (simp add: dict_set_def AList.distinct_update)
  show "is_record r" unfolding is_record_def using dr k attrs_keys [OF assms(1)] by auto
  show "dict_get r ''ENABLED'' = Some p0" "dict_get r ''NAME'' = Some p1"
       "dict_get r ''VERSION'' = Some p2" "dict_get r ''PATH'' = Some p3"
    using m by (simp_all add: dict_get_def)
  show "a \<in> set MODULE_ARGUMENTS \<Longrightarrow> dict_get r a = dict_get d a"
    using m by (auto simp: dict_get_def MODULE_ARGUMENTS_def)
qed

lemma dict_eq_iff:
  assumes "distinct (map fst a)" "distinct (map fst b)"
  shows "dict_eq a b \<longleftrightarrow> map_of a = map_of b"
proof
  assume e: "dict_eq a b"
  have sub: "set a \<subseteq> set b"
  proof
    fix x assume "x \<in> set a"
    then have "map_of b (fst x) = Some (snd x)"
      using e by (auto simp: dict_eq_def list_all_iff)
    then show "x \<in> set b" using map_of_SomeD [of b "fst x" "snd x"] by simp
  qed
  have da: "distinct a" and db: "distinct b"
    using assms by (auto dest: distinct_map [THEN iffD1])
  have "card (set a) = card (set b)"
    using e da db by (simp add: dict_eq_def distinct_card)
  then have "set a = set b" using sub by (simp add: card_subset_eq)
  then show "map_of a = map_of b" using assms by (simp add: map_of_inject_set)
next
  assume m: "map_of a = map_of b"
  then have s: "set a = set b" using assms by (simp add: map_of_inject_set)
  have da: "distinct a" and db: "distinct b"
    using assms by (auto dest: distinct_map [THEN iffD1])
  have l: "length a = length b" using s da db by (metis distinct_card)
  have "list_all (\<lambda>(k, v). map_of b k = Some v) a"
    using s assms(2) by (auto simp: list_all_iff)
  then show "dict_eq a b" using l by (simp add: dict_eq_def)
qed

lemma record_del:
  "is_record r \<Longrightarrow> dict_del r ''ENABLED'' = Inr (AList.delete ''ENABLED'' r)"
  by (auto simp: is_record_def dict_del_def dict_contains_def positional_keys_def
        map_of_eq_None_iff)

lemma record_match_iff:
  assumes "is_record r1" "is_record r2"
  shows "dict_eq (AList.delete ''ENABLED'' r1) (AList.delete ''ENABLED'' r2)
         \<longleftrightarrow> identity r1 = identity r2"
proof -
  have d1: "distinct (map fst (AList.delete ''ENABLED'' r1))"
    and d2: "distinct (map fst (AList.delete ''ENABLED'' r2))"
    using assms by (simp_all add: is_record_def AList.distinct_delete)
  have dom: "\<And>r k. is_record r \<Longrightarrow> k \<notin> set (positional_keys @ MODULE_ARGUMENTS) \<Longrightarrow> map_of r k = None"
    by (auto simp: is_record_def map_of_eq_None_iff)
  have "map_of (AList.delete ''ENABLED'' r1) = map_of (AList.delete ''ENABLED'' r2)
        \<longleftrightarrow> identity r1 = identity r2"
  proof
    assume e: "map_of (AList.delete ''ENABLED'' r1) = map_of (AList.delete ''ENABLED'' r2)"
    have "\<And>k. k \<noteq> ''ENABLED'' \<Longrightarrow> map_of r1 k = map_of r2 k"
      using e by (metis AList.map_of_delete)
    then show "identity r1 = identity r2" by (simp add: identity_def dict_get_def)
  next
    assume i: "identity r1 = identity r2"
    show "map_of (AList.delete ''ENABLED'' r1) = map_of (AList.delete ''ENABLED'' r2)"
    proof
      fix k
      show "map_of (AList.delete ''ENABLED'' r1) k = map_of (AList.delete ''ENABLED'' r2) k"
      proof (cases "k \<in> set (positional_keys @ MODULE_ARGUMENTS)")
        case True
        then show ?thesis using i
          by (auto simp: identity_def dict_get_def positional_keys_def MODULE_ARGUMENTS_def
                AList.delete_conv')
      next
        case False
        then show ?thesis using dom [OF assms(1) False] dom [OF assms(2) False]
          by (simp add: AList.delete_conv')
      qed
    qed
  qed
  then show ?thesis using dict_eq_iff [OF d1 d2] by simp
qed



lemma argument_key_iff:
  "argument_key part = Some a \<longleftrightarrow> a \<in> set MODULE_ARGUMENTS \<and> startswith part a"
proof
  assume "argument_key part = Some a"
  then show "a \<in> set MODULE_ARGUMENTS \<and> startswith part a" by (rule argument_key_Some)
next
  assume h: "a \<in> set MODULE_ARGUMENTS \<and> startswith part a"
  then consider "a = ''MAYAVERSION''" | "a = ''PLATFORM''" | "a = ''LOCALE''"
    by (auto simp: MODULE_ARGUMENTS_def)
  then show "argument_key part = Some a"
  proof cases
    case 1
    then show ?thesis using h by (simp add: argument_key_def MODULE_ARGUMENTS_def)
  next
    case 2
    then have "hd part = CHR ''P''" using h startswith_hd by blast
    then have "\<not> startswith part ''MAYAVERSION''" using startswith_hd by fastforce
    then show ?thesis using h 2 by (simp add: argument_key_def MODULE_ARGUMENTS_def)
  next
    case 3
    then have "hd part = CHR ''L''" using h startswith_hd by blast
    then have "\<not> startswith part ''MAYAVERSION''" "\<not> startswith part ''PLATFORM''"
      using startswith_hd by fastforce+
    then show ?thesis using h 3 by (simp add: argument_key_def MODULE_ARGUMENTS_def)
  qed
qed


lemma argument_key_None_iff:
  "argument_key part = None \<longleftrightarrow> (\<forall>a \<in> set MODULE_ARGUMENTS. \<not> startswith part a)"
  by (auto simp: argument_key_def MODULE_ARGUMENTS_def)

lemma parse_Some:
  assumes "parse_module_line line = Inr (Some r)"
  shows "line \<noteq> []" and "hd line \<in> {CHR ''+'', CHR ''-''}" and "length (positional line) = 4"
    and "is_record r"
    and "map (dict_get r) positional_keys = map Some (positional line)"
    and "\<exists>d. attrs_ok (str_split line) [] d
             \<and> (\<forall>a \<in> set MODULE_ARGUMENTS. dict_get r a = dict_get d a)"
proof -
  obtain d where a: "attrs_ok (str_split line) [] d"
    and p: "parse_module_line line =
           (if line = [] \<or> hd line \<notin> {CHR ''+'', CHR ''-''} \<or> length (positional line) \<noteq> 4
            then Inr None
            else Inr (Some (add_positional positional_keys (positional line) d)))"
    using parse_module_line_eq [of line] by blast
  show 1: "line \<noteq> []" and 2: "hd line \<in> {CHR ''+'', CHR ''-''}"
    and 3: "length (positional line) = 4"
    using assms p by (auto split: if_splits)
  obtain p0 p1 p2 p3 where ps: "positional line = [p0, p1, p2, p3]"
    using length_4 [OF 3] by blast
  have r: "r = add_positional positional_keys [p0, p1, p2, p3] d"
    using assms p 1 2 3 ps by (auto split: if_splits)
  show "is_record r" unfolding r by (rule record_fields(1) [OF a])
  show "map (dict_get r) positional_keys = map Some (positional line)"
    unfolding r ps using record_fields(2-5) [OF a, of p0 p1 p2 p3]
    by (simp add: positional_keys_def)
  show "\<exists>d. attrs_ok (str_split line) [] d
             \<and> (\<forall>a \<in> set MODULE_ARGUMENTS. dict_get r a = dict_get d a)"
    unfolding r using a record_fields(6) [OF a] by blast
qed

lemma parse_attributes:
  assumes "parse_module_line line = Inr (Some r)" "a \<in> set MODULE_ARGUMENTS"
  shows "dict_contains r a \<longleftrightarrow> (\<exists>p \<in> set (str_split line). startswith p a)"
    and "dict_get r a = Some v \<Longrightarrow>
           \<exists>p \<in> set (str_split line). startswith p a \<and> v = drop (length a + 1) p"
proof -
  obtain d where a: "attrs_ok (str_split line) [] d"
    and e: "\<forall>a \<in> set MODULE_ARGUMENTS. dict_get r a = dict_get d a"
    using parse_Some(6) [OF assms(1)] by blast
  have k: "fst ` set d = {a. \<exists>p \<in> set (str_split line). argument_key p = Some a}"
    using a unfolding attrs_ok_def by simp
  have "dict_contains r a \<longleftrightarrow> a \<in> fst ` set d"
    using e assms(2) by (simp add: dict_contains_def dict_get_def map_of_eq_None_iff)
  then show "dict_contains r a \<longleftrightarrow> (\<exists>p \<in> set (str_split line). startswith p a)"
    using k assms(2) by (auto simp: argument_key_iff)
  show "dict_get r a = Some v \<Longrightarrow>
           \<exists>p \<in> set (str_split line). startswith p a \<and> v = drop (length a + 1) p"
  proof -
    assume "dict_get r a = Some v"
    then have "map_of d a = Some v" using e assms(2) by (simp add: dict_get_def)
    moreover have "\<forall>a v. map_of d a = Some v \<longrightarrow>
           map_of [] a = Some v
           \<or> (\<exists>p \<in> set (str_split line). argument_key p = Some a \<and> v = drop (length a + 1) p)"
      using a unfolding attrs_ok_def by blast
    ultimately obtain p where "p \<in> set (str_split line)" "argument_key p = Some a"
      "v = drop (length a + 1) p"
      by fastforce
    then show ?thesis using argument_key_iff by blast
  qed
qed

text \<open>
  C5, as amended. The scan has no \<open>break\<close> and removes every token that starts with a
  key of \<open>MODULE_ARGUMENTS\<close>, however many carry the same key: a line that begins with
  \<open>+\<close> or \<open>-\<close> parses to a record exactly when four tokens start with no key, so four
  positional tokens and two \<open>MAYAVERSION\<close> tokens parse to a record. In the record the four
  positional fields are those four tokens in order, a key is present exactly when some
  token starts with it, and its value is the text of such a token after the key and one
  more character.
\<close>

theorem parse_extracts_every_argument:
  "(line \<noteq> [] \<and> hd line \<in> {CHR ''+'', CHR ''-''} \<and> length (positional line) = 4
      \<longrightarrow> (\<exists>d. parse_module_line line = Inr (Some d)))
   \<and> (parse_module_line line = Inr (Some r) \<longrightarrow>
        map (dict_get r) positional_keys = map Some (positional line)
        \<and> (\<forall>a \<in> set MODULE_ARGUMENTS.
              (dict_contains r a \<longleftrightarrow> (\<exists>p \<in> set (str_split line). startswith p a))
              \<and> (\<forall>v. dict_get r a = Some v \<longrightarrow>
                    (\<exists>p \<in> set (str_split line).
                        startswith p a \<and> v = drop (length a + 1) p))))"
proof (intro conjI impI)
  assume "line \<noteq> [] \<and> hd line \<in> {CHR ''+'', CHR ''-''} \<and> length (positional line) = 4"
  then show "\<exists>d. parse_module_line line = Inr (Some d)"
    using parse_module_line_eq [of line] by auto
next
  assume p: "parse_module_line line = Inr (Some r)"
  show "map (dict_get r) positional_keys = map Some (positional line)"
    by (rule parse_Some(5) [OF p])
  show "\<forall>a \<in> set MODULE_ARGUMENTS.
              (dict_contains r a \<longleftrightarrow> (\<exists>p \<in> set (str_split line). startswith p a))
              \<and> (\<forall>v. dict_get r a = Some v \<longrightarrow>
                    (\<exists>p \<in> set (str_split line).
                        startswith p a \<and> v = drop (length a + 1) p))"
    using parse_attributes [OF p] by blast
qed

lemma example_two_keys:
  "parse_module_line ''+ n v p MAYAVERSION=1 MAYAVERSION=2''
     = Inr (Some [(''MAYAVERSION'', ''1''), (''ENABLED'', ''+''), (''NAME'', ''n''),
                  (''VERSION'', ''v''), (''PATH'', ''p'')])"
  by code_simp

lemma example_three_keys:
  "parse_module_line ''+ MAYAVERSION:1 n MAYAVERSION:2 v p MAYAVERSION:1''
     = Inr (Some [(''MAYAVERSION'', ''2''), (''ENABLED'', ''+''), (''NAME'', ''n''),
                  (''VERSION'', ''v''), (''PATH'', ''p'')])"
  by code_simp

lemma example_three_keys_split:
  "str_split ''+ MAYAVERSION:1 n MAYAVERSION:2 v p MAYAVERSION:1''
     = [''+'', ''MAYAVERSION:1'', ''n'', ''MAYAVERSION:2'', ''v'', ''p'', ''MAYAVERSION:1'']"
  by code_simp

lemma example_three_keys_positional:
  "positional ''+ MAYAVERSION:1 n MAYAVERSION:2 v p MAYAVERSION:1'' = [''+'', ''n'', ''v'', ''p'']"
  by code_simp

theorem parse_extracts_every_argument_witness:
  "length (positional ''+ MAYAVERSION:1 n MAYAVERSION:2 v p MAYAVERSION:1'') = 4
   \<and> parse_module_line ''+ MAYAVERSION:1 n MAYAVERSION:2 v p MAYAVERSION:1''
       = Inr (Some [(''MAYAVERSION'', ''2''), (''ENABLED'', ''+''), (''NAME'', ''n''),
                    (''VERSION'', ''v''), (''PATH'', ''p'')])
   \<and> map (dict_get [(''MAYAVERSION'', ''2''), (''ENABLED'', ''+''), (''NAME'', ''n''),
                    (''VERSION'', ''v''), (''PATH'', ''p'')]) positional_keys
       = map Some [''+'', ''n'', ''v'', ''p'']"
  using parse_extracts_every_argument
          [of "''+ MAYAVERSION:1 n MAYAVERSION:2 v p MAYAVERSION:1''"
              "[(''MAYAVERSION'', ''2''), (''ENABLED'', ''+''), (''NAME'', ''n''),
                (''VERSION'', ''v''), (''PATH'', ''p'')]"]
        example_three_keys example_three_keys_positional
  by simp

text \<open>
  C5 as stated fails: with the four positional tokens and two \<open>MAYAVERSION\<close> tokens both
  tokens are extracted, four tokens are left and the line parses to a record.
\<close>

theorem two_tokens_same_key_counterexample:
  "parse_module_line ''+ n v p MAYAVERSION=1 MAYAVERSION=2''
     = Inr (Some [(''MAYAVERSION'', ''1''), (''ENABLED'', ''+''), (''NAME'', ''n''),
                  (''VERSION'', ''v''), (''PATH'', ''p'')])
   \<and> parse_module_line ''+ n v p MAYAVERSION=1 MAYAVERSION=2'' \<noteq> Inr None"
  using example_two_keys by simp

text \<open>
  C6, as amended. For every line that \<open>parse_module_line\<close> accepts, the \<open>ENABLED\<close> field is
  the first whitespace-delimited token of the line: the marker, which is \<open>+\<close> or \<open>-\<close>,
  followed by whatever stands between it and the first whitespace. The check box is
  enabled exactly when that token is the string \<open>+\<close>.
\<close>

theorem parse_enabled_field:
  "parse_module_line line = Inr (Some r) \<Longrightarrow>
     line \<noteq> [] \<and> hd line \<in> {CHR ''+'', CHR ''-''}
     \<and> dict_get r ''ENABLED'' = Some (hd (str_split line))
     \<and> hd (str_split line) = hd line # takeWhile (\<lambda>c. \<not> isspace c) (tl line)
     \<and> (enabled_state r \<longleftrightarrow> hd (str_split line) = ''+'')"
proof -
  assume p: "parse_module_line line = Inr (Some r)"
  have 1: "line \<noteq> []" and 2: "hd line \<in> {CHR ''+'', CHR ''-''}"
    using parse_Some(1,2) [OF p] by auto
  obtain c cs where l: "line = c # cs" using 1 by (cases line) auto
  have c: "c \<in> {CHR ''+'', CHR ''-''}" using 2 unfolding l by simp
  have h: "hd (str_split (c # cs)) = c # takeWhile (\<lambda>c. \<not> isspace c) cs"
    using str_split_hd [OF marker_not_space [OF c], of cs] by simp
  have ph: "positional (c # cs) \<noteq> []" "hd (positional (c # cs)) = hd (str_split (c # cs))"
    using positional_hd [OF c, of cs] h by simp_all
  have m: "map (dict_get r) positional_keys = map Some (positional (c # cs))"
    using parse_Some(5) [OF p] unfolding l .
  obtain p0 ps where pp: "positional (c # cs) = p0 # ps"
    using ph(1) by (cases "positional (c # cs)") auto
  have e: "dict_get r ''ENABLED'' = Some p0"
    using m unfolding pp positional_keys_def by simp
  have p0: "p0 = hd (str_split (c # cs))" using ph(2) unfolding pp by simp
  have 3: "dict_get r ''ENABLED'' = Some (hd (str_split line))"
    using e p0 unfolding l by simp
  have 4: "hd (str_split line) = hd line # takeWhile (\<lambda>c. \<not> isspace c) (tl line)"
    using h unfolding l by simp
  have 5: "enabled_state r \<longleftrightarrow> hd (str_split line) = ''+''"
    unfolding enabled_state_def 3 by simp
  show ?thesis using 1 2 3 4 5 by blast
qed

lemma example_long_marker:
  "parse_module_line ''+Name 1.0 path extra''
     = Inr (Some [(''ENABLED'', ''+Name''), (''NAME'', ''1.0''), (''VERSION'', ''path''),
                  (''PATH'', ''extra'')])"
  by code_simp

lemma example_parse_record:
  "parse_module_line ''- Tool 1.0 ../content MAYAVERSION=2024''
     = Inr (Some [(''MAYAVERSION'', ''2024''), (''ENABLED'', ''-''), (''NAME'', ''Tool''),
      (''VERSION'', ''1.0''), (''PATH'', ''../content'')])"
  by code_simp

theorem parse_enabled_field_witness:
  "parse_module_line ''- Tool 1.0 ../content MAYAVERSION=2024'' = Inr (Some
     [(''MAYAVERSION'', ''2024''), (''ENABLED'', ''-''), (''NAME'', ''Tool''),
      (''VERSION'', ''1.0''), (''PATH'', ''../content'')])
   \<and> hd (str_split ''- Tool 1.0 ../content MAYAVERSION=2024'') = ''-''
   \<and> \<not> enabled_state  [(''MAYAVERSION'', ''2024''), (''ENABLED'', ''-''), (''NAME'', ''Tool''),
      (''VERSION'', ''1.0''), (''PATH'', ''../content'')]"
proof -
  note f = parse_enabled_field [OF example_parse_record]
  have "dict_get [(''MAYAVERSION'', ''2024''), (''ENABLED'', ''-''), (''NAME'', ''Tool''),
      (''VERSION'', ''1.0''), (''PATH'', ''../content'')] ''ENABLED''
        = Some (hd (str_split ''- Tool 1.0 ../content MAYAVERSION=2024''))"
    using f by blast
  then have h: "hd (str_split ''- Tool 1.0 ../content MAYAVERSION=2024'') = ''-''"
    by (simp add: dict_get_def)
  have "enabled_state [(''MAYAVERSION'', ''2024''), (''ENABLED'', ''-''), (''NAME'', ''Tool''),
      (''VERSION'', ''1.0''), (''PATH'', ''../content'')]
        \<longleftrightarrow> hd (str_split ''- Tool 1.0 ../content MAYAVERSION=2024'') = ''+''"
    using f by blast
  then have "\<not> enabled_state [(''MAYAVERSION'', ''2024''), (''ENABLED'', ''-''), (''NAME'', ''Tool''),
      (''VERSION'', ''1.0''), (''PATH'', ''../content'')]"
    unfolding h by simp
  then show ?thesis using example_parse_record h by blast
qed

text \<open>
  C6 as stated fails: a name written right after the marker is part of the first token,
  the line is accepted, and its \<open>ENABLED\<close> field is neither \<open>+\<close> nor \<open>-\<close>.
\<close>

theorem enabled_token_counterexample:
  "parse_module_line ''+Name 1.0 path extra''
     = Inr (Some [(''ENABLED'', ''+Name''), (''NAME'', ''1.0''), (''VERSION'', ''path''),
                  (''PATH'', ''extra'')])
   \<and> dict_get [(''ENABLED'', ''+Name''), (''NAME'', ''1.0''), (''VERSION'', ''path''),
                (''PATH'', ''extra'')] ''ENABLED'' = Some ''+Name''
   \<and> \<not> enabled_state [(''ENABLED'', ''+Name''), (''NAME'', ''1.0''), (''VERSION'', ''path''),
                (''PATH'', ''extra'')]"
  using example_long_marker by (simp add: dict_get_def enabled_state_def)

section \<open>What update_module_file writes\<close>

lemma update_lines_eq:
  "update_lines enabled data lines content =
     Inr (content @ map (\<lambda>line. if matches data line then enabled @ drop 1 line else line) lines)"
proof (induction lines arbitrary: content)
  case Nil
  then show ?case by simp
next
  case (Cons line lines)
  obtain r where p: "parse_module_line line = Inr r"
    using parse_module_line_total by blast
  show ?case
  proof (cases r)
    case None
    then show ?thesis using p Cons.IH by (simp add: matches_def)
  next
    case (Some line_data)
    have rec: "is_record line_data" using parse_Some(4) p Some by blast
    have del: "dict_del line_data ''ENABLED'' = Inr (AList.delete ''ENABLED'' line_data)"
      by (rule record_del [OF rec])
    have ne: "line_data \<noteq> []" using rec by (auto simp: is_record_def positional_keys_def)
    show ?thesis using p Some del ne Cons.IH by (simp add: matches_def)
  qed
qed

lemma update_module_file_eq:
  assumes "dict_contains data ''ENABLED''" "fs p = Some (File f)" "readable f" "writable f"
  shows "update_module_file fs p state data =
     (let text = concat (map (\<lambda>c. c @ [CHR 0x0A]) (rewritten state data (file_text f)))
      in case room f of
           None \<Rightarrow> (fs(p \<mapsto> File (f\<lparr>file_text := text\<rparr>)), AList.delete ''ENABLED'' data, Inr ())
         | Some n \<Rightarrow>
             if length text \<le> n
             then (fs(p \<mapsto> File (f\<lparr>file_text := text\<rparr>)), AList.delete ''ENABLED'' data, Inr ())
             else (fs(p \<mapsto> File (f\<lparr>file_text := take n text\<rparr>)),
                   AList.delete ''ENABLED'' data, Inl OSError))"
  using assms
  by (simp add: update_module_file_def dict_del_def read_module_file_def open_read_def
        update_lines_eq open_write_def writelines_def rewritten_def Let_def
        split: option.splits)









lemma matches_identity:
  assumes "is_record data"
  shows "matches (AList.delete ''ENABLED'' data) l
         \<longleftrightarrow> (\<exists>r. parse_module_line l = Inr (Some r) \<and> identity r = identity data)"
proof -
  obtain x where p: "parse_module_line l = Inr x" using parse_module_line_total by blast
  show ?thesis
  proof (cases x)
    case None
    then show ?thesis using p by (simp add: matches_def)
  next
    case (Some r)
    have rec: "is_record r" using parse_Some(4) p Some by blast
    have ne: "r \<noteq> []" using rec by (auto simp: is_record_def positional_keys_def)
    have "matches (AList.delete ''ENABLED'' data) l
          \<longleftrightarrow> dict_eq (AList.delete ''ENABLED'' data) (AList.delete ''ENABLED'' r)"
      using p Some ne record_del [OF rec] by (simp add: matches_def)
    also have "\<dots> \<longleftrightarrow> identity data = identity r"
      by (rule record_match_iff [OF assms rec])
    finally show ?thesis using p Some by auto
  qed
qed

lemma marker_drop: "l \<noteq> [] \<Longrightarrow> [hd l] @ drop 1 l = l"
  by (cases l) auto

lemma record_has_enabled: "is_record d \<Longrightarrow> dict_contains d ''ENABLED''"
  by (auto simp: is_record_def dict_contains_def positional_keys_def map_of_eq_None_iff)


lemma example_hyps:
  "example_fs ''/mods/tool.mod'' = Some (File example_file)"
  "readable example_file" "writable example_file" "room example_file = None"
  "dict_contains example_record ''ENABLED''"
  by (simp_all add: example_fs_def example_file_def example_record_def dict_contains_def)






section \<open>Matching by identity\<close>

lemma parse_enabled_token:
  assumes p: "parse_module_line line = Inr (Some r)"
  shows "dict_get r ''ENABLED'' = Some (hd line # takeWhile (\<lambda>c. \<not> isspace c) (tl line))"
proof -
  have 1: "line \<noteq> []" and 2: "hd line \<in> {CHR ''+'', CHR ''-''}"
    using parse_Some(1,2) [OF p] by auto
  obtain c cs where l: "line = c # cs" using 1 by (cases line) auto
  have c: "c \<in> {CHR ''+'', CHR ''-''}" using 2 unfolding l by simp
  have ph: "positional (c # cs) \<noteq> []"
    "hd (positional (c # cs)) = c # takeWhile (\<lambda>c. \<not> isspace c) cs"
    using positional_hd [OF c, of cs] by simp_all
  have m: "map (dict_get r) positional_keys = map Some (positional (c # cs))"
    using parse_Some(5) [OF p] unfolding l .
  obtain p0 ps where pp: "positional (c # cs) = p0 # ps"
    using ph(1) by (cases "positional (c # cs)") auto
  have e: "dict_get r ''ENABLED'' = Some p0"
    using m unfolding pp positional_keys_def by simp
  have "p0 = c # takeWhile (\<lambda>c. \<not> isspace c) cs" using ph(2) unfolding pp by simp
  then show ?thesis using e unfolding l by simp
qed

lemma update_module_file_written:
  assumes "fs p = Some (File f)" "readable f" "writable f" "room f = None"
    and "dict_contains data ''ENABLED''"
  shows "update_module_file fs p state data =
        (fs(p \<mapsto> File (f\<lparr>file_text :=
            concat (map (\<lambda>l. l @ [CHR 0x0A]) (rewritten state data (file_text f)))\<rparr>)),
         AList.delete ''ENABLED'' data, Inr ())"
  using update_module_file_eq [of data fs p f state] assms by (simp add: Let_def)

lemma rewritten_nth:
  "i < length (readlines text) \<Longrightarrow>
   rewritten state data text ! i =
     (if matches (AList.delete ''ENABLED'' data) (strip (readlines text ! i))
      then (if state then ''+'' else ''-'') @ drop 1 (strip (readlines text ! i))
      else strip (readlines text ! i))"
  by (simp add: rewritten_def)

lemma length_rewritten: "length (rewritten state data text) = length (readlines text)"
  by (simp add: rewritten_def)

text \<open>
  C3, as amended. When \<open>update_module_file\<close> is given a record that \<open>parse_module_line\<close>
  produced, every stripped line of the file that parses to a record with the same
  \<open>NAME\<close>, \<open>VERSION\<close>, \<open>PATH\<close> and attributes gets the marker of the requested state as its
  first character, whatever its marker was, and every other line is written as it was
  read; when no line has that identity, what is written is the stripped lines of the
  file, each followed by one newline.
\<close>

theorem update_module_file_identity:
  assumes "fs p = Some (File f)" "readable f" "writable f" "room f = None"
    and "parse_module_line l0 = Inr (Some data)"
  shows "\<exists>out.
      update_module_file fs p state data =
        (fs(p \<mapsto> File (f\<lparr>file_text := concat (map (\<lambda>l. l @ [CHR 0x0A]) out)\<rparr>)),
         AList.delete ''ENABLED'' data, Inr ())
      \<and> length out = length (readlines (file_text f))
      \<and> (\<forall>i < length out.
            ((\<exists>r. parse_module_line (strip (readlines (file_text f) ! i)) = Inr (Some r)
                  \<and> identity r = identity data)
               \<longrightarrow> out ! i = (if state then ''+'' else ''-'')
                               @ drop 1 (strip (readlines (file_text f) ! i)))
            \<and> (\<not> (\<exists>r. parse_module_line (strip (readlines (file_text f) ! i)) = Inr (Some r)
                  \<and> identity r = identity data)
               \<longrightarrow> out ! i = strip (readlines (file_text f) ! i)))
      \<and> ((\<forall>l \<in> set (readlines (file_text f)). \<forall>r.
             parse_module_line (strip l) = Inr (Some r) \<longrightarrow> identity r \<noteq> identity data)
           \<longrightarrow> out = map strip (readlines (file_text f)))"
proof -
  let ?out = "rewritten state data (file_text f)"
  let ?lines = "readlines (file_text f)"
  have rec: "is_record data" by (rule parse_Some(4) [OF assms(5)])
  have en: "dict_contains data ''ENABLED''" by (rule record_has_enabled [OF rec])
  have u: "update_module_file fs p state data =
        (fs(p \<mapsto> File (f\<lparr>file_text := concat (map (\<lambda>l. l @ [CHR 0x0A]) ?out)\<rparr>)),
         AList.delete ''ENABLED'' data, Inr ())"
    using update_module_file_written [of fs p f data state] assms(1-4) en by blast
  have len: "length ?out = length ?lines" by (rule length_rewritten)
  have each: "\<forall>i < length ?out.
            ((\<exists>r. parse_module_line (strip (?lines ! i)) = Inr (Some r)
                  \<and> identity r = identity data)
               \<longrightarrow> ?out ! i = (if state then ''+'' else ''-'') @ drop 1 (strip (?lines ! i)))
            \<and> (\<not> (\<exists>r. parse_module_line (strip (?lines ! i)) = Inr (Some r)
                  \<and> identity r = identity data)
               \<longrightarrow> ?out ! i = strip (?lines ! i))"
  proof (intro allI impI)
    fix i assume "i < length ?out"
    then have i: "i < length ?lines" using len by simp
    have o: "?out ! i =
       (if matches (AList.delete ''ENABLED'' data) (strip (?lines ! i))
        then (if state then ''+'' else ''-'') @ drop 1 (strip (?lines ! i))
        else strip (?lines ! i))"
      by (rule rewritten_nth [OF i])
    show "((\<exists>r. parse_module_line (strip (?lines ! i)) = Inr (Some r)
                  \<and> identity r = identity data)
               \<longrightarrow> ?out ! i = (if state then ''+'' else ''-'') @ drop 1 (strip (?lines ! i)))
            \<and> (\<not> (\<exists>r. parse_module_line (strip (?lines ! i)) = Inr (Some r)
                  \<and> identity r = identity data)
               \<longrightarrow> ?out ! i = strip (?lines ! i))"
      unfolding o matches_identity [OF rec] by (simp, blast)
  qed
  have none: "(\<forall>l \<in> set ?lines. \<forall>r.
             parse_module_line (strip l) = Inr (Some r) \<longrightarrow> identity r \<noteq> identity data)
           \<longrightarrow> ?out = map strip ?lines"
  proof
    assume a: "\<forall>l \<in> set ?lines. \<forall>r.
             parse_module_line (strip l) = Inr (Some r) \<longrightarrow> identity r \<noteq> identity data"
    have "\<forall>l \<in> set ?lines. \<not> matches (AList.delete ''ENABLED'' data) (strip l)"
      using a matches_identity [OF rec] by blast
    then show "?out = map strip ?lines" by (simp add: rewritten_def)
  qed
  show ?thesis using u len each none by blast
qed

text \<open>
  C4, as amended. Take a record of the file whose \<open>ENABLED\<close> token is exactly \<open>+\<close> or \<open>-\<close>,
  and let every line of the file with the same identity begin with the same marker.
  Then updating with the record's current state writes the stripped lines of the file,
  each followed by one newline, and nothing else.
\<close>

theorem update_module_file_idempotent:
  assumes "fs p = Some (File f)" "readable f" "writable f" "room f = None"
    and "l0 \<in> set (map strip (readlines (file_text f)))"
    and "parse_module_line l0 = Inr (Some data)"
    and "dict_get data ''ENABLED'' = Some ''+'' \<or> dict_get data ''ENABLED'' = Some ''-''"
    and "\<forall>l \<in> set (map strip (readlines (file_text f))). \<forall>r.
           parse_module_line l = Inr (Some r) \<longrightarrow> identity r = identity data \<longrightarrow> hd l = hd l0"
  shows "update_module_file fs p (enabled_state data) data =
        (fs(p \<mapsto> File (f\<lparr>file_text :=
            concat (map (\<lambda>l. l @ [CHR 0x0A]) (map strip (readlines (file_text f))))\<rparr>)),
         AList.delete ''ENABLED'' data, Inr ())"
proof -
  let ?state = "enabled_state data"
  have rec: "is_record data" by (rule parse_Some(4) [OF assms(6)])
  have en: "dict_contains data ''ENABLED''" by (rule record_has_enabled [OF rec])
  have tok: "dict_get data ''ENABLED'' = Some (hd l0 # takeWhile (\<lambda>c. \<not> isspace c) (tl l0))"
    by (rule parse_enabled_token [OF assms(6)])
  have marker: "(if ?state then ''+'' else ''-'') = [hd l0]"
    using assms(7) tok by (auto simp: enabled_state_def)
  have same: "\<And>l. l \<in> set (map strip (readlines (file_text f))) \<Longrightarrow>
      (if matches (AList.delete ''ENABLED'' data) l
       then (if ?state then ''+'' else ''-'') @ drop 1 l else l) = l"
  proof -
    fix l assume l: "l \<in> set (map strip (readlines (file_text f)))"
    show "(if matches (AList.delete ''ENABLED'' data) l
       then (if ?state then ''+'' else ''-'') @ drop 1 l else l) = l"
    proof (cases "matches (AList.delete ''ENABLED'' data) l")
      case True
      then obtain r where r: "parse_module_line l = Inr (Some r)" "identity r = identity data"
        using matches_identity [OF rec] by blast
      have ne: "l \<noteq> []" by (rule parse_Some(1) [OF r(1)])
      have "hd l = hd l0" using assms(8) l r by blast
      then have "[hd l0] @ drop 1 l = l" using marker_drop [OF ne] by simp
      then show ?thesis using True marker by simp
    next
      case False
      then show ?thesis by simp
    qed
  qed
  have "rewritten ?state data (file_text f) = map strip (readlines (file_text f))"
    unfolding rewritten_def using same by (simp add: map_idI)
  then show ?thesis
    using update_module_file_written [of fs p f data ?state] assms(1-4) en by simp
qed


lemma example_lines:
  "map strip (readlines (file_text example_file))
     = [''# tools'', ''- Tool 1.0 ../content MAYAVERSION=2024'', ''+OnlyTwoTokens'']"
  by code_simp

lemma example_parse_comment: "parse_module_line ''# tools'' = Inr None"
  by code_simp

lemma example_parse_two_tokens: "parse_module_line ''+OnlyTwoTokens'' = Inr None"
  by code_simp

lemma example_parse_example_record:
  "parse_module_line ''- Tool 1.0 ../content MAYAVERSION=2024'' = Inr (Some example_record)"
  using example_parse_record by (simp add: example_record_def)

lemma example_enable:
  "fst (update_module_file example_fs ''/mods/tool.mod'' True example_record) ''/mods/tool.mod''
     = Some (File \<lparr>file_text = ''# tools\<newline>+ Tool 1.0 ../content MAYAVERSION=2024\<newline>+OnlyTwoTokens\<newline>'',
                     readable = True, writable = True, room = None\<rparr>)"
  by code_simp

theorem update_module_file_identity_witness:
  "example_fs ''/mods/tool.mod'' = Some (File example_file)
   \<and> readable example_file \<and> writable example_file \<and> room example_file = None
   \<and> parse_module_line ''- Tool 1.0 ../content MAYAVERSION=2024'' = Inr (Some example_record)
   \<and> snd (snd (update_module_file example_fs ''/mods/tool.mod'' True example_record)) = Inr ()
   \<and> fst (update_module_file example_fs ''/mods/tool.mod'' True example_record) ''/mods/tool.mod''
     = Some (File \<lparr>file_text = ''# tools\<newline>+ Tool 1.0 ../content MAYAVERSION=2024\<newline>+OnlyTwoTokens\<newline>'',
                     readable = True, writable = True, room = None\<rparr>)"
proof -
  obtain out where
    "update_module_file example_fs ''/mods/tool.mod'' True example_record =
        (example_fs(''/mods/tool.mod'' \<mapsto>
           File (example_file\<lparr>file_text := concat (map (\<lambda>l. l @ [CHR 0x0A]) out)\<rparr>)),
         AList.delete ''ENABLED'' example_record, Inr ())"
    using update_module_file_identity
            [where fs = example_fs and p = "''/mods/tool.mod''" and f = example_file
               and data = example_record and state = True
               and ?l0.0 = "''- Tool 1.0 ../content MAYAVERSION=2024''"]
          example_hyps(1-4) example_parse_example_record
    by blast
  then have "snd (snd (update_module_file example_fs ''/mods/tool.mod'' True example_record))
      = Inr ()" by simp
  then show ?thesis
    using example_hyps(1-4) example_parse_example_record example_enable by blast
qed

lemma example_no_match:
  "fst (update_module_file (fs_with ''  + Other 2.0 /x  \<newline>'' None) ''/mods/tool.mod'' True
          example_record) ''/mods/tool.mod''
     = Some (File \<lparr>file_text = ''+ Other 2.0 /x\<newline>'', readable = True, writable = True,
                     room = None\<rparr>)"
  by code_simp

lemma example_no_match_parse:
  "parse_module_line (strip ''  + Other 2.0 /x  \<newline>'')
     = Inr (Some [(''ENABLED'', ''+''), (''NAME'', ''Other''), (''VERSION'', ''2.0''),
                  (''PATH'', ''/x'')])"
  by code_simp

lemma example_no_match_normalized:
  "newline_normalized ''  + Other 2.0 /x  \<newline>'' = ''  + Other 2.0 /x  \<newline>''"
  by code_simp

lemma example_no_match_identity:
  "identity [(''ENABLED'', ''+''), (''NAME'', ''Other''), (''VERSION'', ''2.0''),
             (''PATH'', ''/x'')] \<noteq> identity example_record"
  by (simp add: identity_def example_record_def dict_get_def)

text \<open>
  C3 as stated fails in its last clause: no line has the identity given, and the file
  still changes by more than newline normalization, since the blanks around its only
  line are gone.
\<close>

theorem no_match_counterexample:
  "readlines ''  + Other 2.0 /x  \<newline>'' = [''  + Other 2.0 /x  \<newline>'']
   \<and> parse_module_line (strip ''  + Other 2.0 /x  \<newline>'')
       = Inr (Some [(''ENABLED'', ''+''), (''NAME'', ''Other''), (''VERSION'', ''2.0''),
                    (''PATH'', ''/x'')])
   \<and> identity [(''ENABLED'', ''+''), (''NAME'', ''Other''), (''VERSION'', ''2.0''),
                (''PATH'', ''/x'')] \<noteq> identity example_record
   \<and> newline_normalized ''  + Other 2.0 /x  \<newline>'' = ''  + Other 2.0 /x  \<newline>''
   \<and> fst (update_module_file (fs_with ''  + Other 2.0 /x  \<newline>'' None) ''/mods/tool.mod'' True
          example_record) ''/mods/tool.mod''
     = Some (File \<lparr>file_text = ''+ Other 2.0 /x\<newline>'', readable = True, writable = True,
                     room = None\<rparr>)
   \<and> ''+ Other 2.0 /x\<newline>'' \<noteq> ''  + Other 2.0 /x  \<newline>''"
proof -
  have "readlines ''  + Other 2.0 /x  \<newline>'' = [''  + Other 2.0 /x  \<newline>'']" by code_simp
  then show ?thesis
    using example_no_match example_no_match_parse example_no_match_normalized
      example_no_match_identity
    by simp
qed


theorem update_module_file_idempotent_witness:
  "example_fs ''/mods/tool.mod'' = Some (File example_file)
   \<and> readable example_file \<and> writable example_file \<and> room example_file = None
   \<and> ''- Tool 1.0 ../content MAYAVERSION=2024''
       \<in> set (map strip (readlines (file_text example_file)))
   \<and> parse_module_line ''- Tool 1.0 ../content MAYAVERSION=2024'' = Inr (Some example_record)
   \<and> dict_get example_record ''ENABLED'' = Some ''-''
   \<and> \<not> enabled_state example_record
   \<and> update_module_file example_fs ''/mods/tool.mod'' (enabled_state example_record)
         example_record
       = (example_fs(''/mods/tool.mod'' \<mapsto> File (example_file\<lparr>file_text :=
            ''# tools\<newline>- Tool 1.0 ../content MAYAVERSION=2024\<newline>+OnlyTwoTokens\<newline>''\<rparr>)),
          AList.delete ''ENABLED'' example_record, Inr ())"
proof -
  have en: "dict_get example_record ''ENABLED'' = Some ''-''"
    by (simp add: example_record_def dict_get_def)
  have st: "\<not> enabled_state example_record"
    by (simp add: enabled_state_def en)
  have mem: "''- Tool 1.0 ../content MAYAVERSION=2024''
       \<in> set (map strip (readlines (file_text example_file)))"
    unfolding example_lines by simp
  have same: "\<forall>l \<in> set (map strip (readlines (file_text example_file))). \<forall>r.
      parse_module_line l = Inr (Some r) \<longrightarrow> identity r = identity example_record \<longrightarrow>
      hd l = hd ''- Tool 1.0 ../content MAYAVERSION=2024''"
    unfolding example_lines
    using example_parse_comment example_parse_two_tokens by simp
  have "update_module_file example_fs ''/mods/tool.mod'' (enabled_state example_record)
         example_record
       = (example_fs(''/mods/tool.mod'' \<mapsto> File (example_file\<lparr>file_text :=
            concat (map (\<lambda>l. l @ [CHR 0x0A])
               (map strip (readlines (file_text example_file))))\<rparr>)),
          AList.delete ''ENABLED'' example_record, Inr ())"
    using update_module_file_idempotent
            [where fs = example_fs and p = "''/mods/tool.mod''" and f = example_file
               and data = example_record
               and ?l0.0 = "''- Tool 1.0 ../content MAYAVERSION=2024''"]
          example_hyps(1-4) mem example_parse_example_record en same
    by blast
  then show ?thesis
    unfolding example_lines
    using example_hyps(1-4) mem example_parse_example_record en st by simp
qed

lemma example_duplicates:
  "fst (update_module_file (fs_with ''+ a 1 p\<newline>- a 1 p\<newline>'' None) ''/mods/tool.mod'' True
          [(''ENABLED'', ''+''), (''NAME'', ''a''), (''VERSION'', ''1''), (''PATH'', ''p'')])
       ''/mods/tool.mod''
     = Some (File \<lparr>file_text = ''+ a 1 p\<newline>+ a 1 p\<newline>'', readable = True, writable = True,
                     room = None\<rparr>)"
  by code_simp

lemma example_duplicates_parse:
  "parse_module_line ''+ a 1 p''
     = Inr (Some [(''ENABLED'', ''+''), (''NAME'', ''a''), (''VERSION'', ''1''), (''PATH'', ''p'')])"
  by code_simp

lemma example_duplicates_lines:
  "map strip (readlines ''+ a 1 p\<newline>- a 1 p\<newline>'') = [''+ a 1 p'', ''- a 1 p'']"
  by code_simp

lemma example_duplicates_normalized:
  "newline_normalized ''+ a 1 p\<newline>- a 1 p\<newline>'' = ''+ a 1 p\<newline>- a 1 p\<newline>''"
  by code_simp

text \<open>
  C4 as stated fails: the file holds the same identity twice with different markers;
  updating the enabled record with its current state rewrites the disabled line.
\<close>

theorem duplicate_identity_counterexample:
  "map strip (readlines ''+ a 1 p\<newline>- a 1 p\<newline>'') = [''+ a 1 p'', ''- a 1 p'']
   \<and> parse_module_line ''+ a 1 p''
       = Inr (Some [(''ENABLED'', ''+''), (''NAME'', ''a''), (''VERSION'', ''1''),
                    (''PATH'', ''p'')])
   \<and> enabled_state [(''ENABLED'', ''+''), (''NAME'', ''a''), (''VERSION'', ''1''),
                     (''PATH'', ''p'')]
   \<and> newline_normalized ''+ a 1 p\<newline>- a 1 p\<newline>'' = ''+ a 1 p\<newline>- a 1 p\<newline>''
   \<and> fst (update_module_file (fs_with ''+ a 1 p\<newline>- a 1 p\<newline>'' None) ''/mods/tool.mod'' True
          [(''ENABLED'', ''+''), (''NAME'', ''a''), (''VERSION'', ''1''), (''PATH'', ''p'')])
       ''/mods/tool.mod''
     = Some (File \<lparr>file_text = ''+ a 1 p\<newline>+ a 1 p\<newline>'', readable = True, writable = True,
                     room = None\<rparr>)
   \<and> ''+ a 1 p\<newline>+ a 1 p\<newline>'' \<noteq> ''+ a 1 p\<newline>- a 1 p\<newline>''"
  using example_duplicates example_duplicates_parse example_duplicates_lines
    example_duplicates_normalized
  by (simp add: enabled_state_def dict_get_def)





section \<open>I/O failures\<close>


lemma open_write_fails:
  "fs p = Some (File f) \<Longrightarrow> open_write fs p = Inl e \<Longrightarrow> \<not> writable f"
  by (auto simp: open_write_def split: if_splits)


lemma example_missing:
  "update_module_file Map.empty ''/mods/tool.mod'' True example_record
     = (Map.empty, AList.delete ''ENABLED'' example_record, Inl FileNotFoundError)"
  by (simp add: update_module_file_def dict_del_def dict_contains_def example_record_def
        read_module_file_def open_read_def)







end
